theory Spec2Isabelle
  imports Complex_Main "HOL-Library.Multiset" "HOL-Library.Code_Target_Nat"
begin

section \<open>The basal body temperature tracker\<close>

text \<open>
  A shallow embedding of the analysis code of the \<open>BBTTracker\<close> component: the record
  store (\<open>addTemperature\<close>), the CSV codec (\<open>importCSV\<close>, \<open>downloadCSV\<close>), the
  fertile window detector (\<open>analyzeFertileWindows\<close>) and the cycle predictor
  (\<open>predictNextFertileWindow\<close>, \<open>calculateCycleLength\<close>).

  Conventions of the model:
  \<^item> a JavaScript string is a \<open>string\<close>; \<open>trim\<close> and \<open>toLowerCase\<close> act on
    the ASCII white space and letters;
  \<^item> a JavaScript number that holds a temperature or a mean is an exact rational;
    the rounding of IEEE doubles is not modelled;
  \<^item> a \<open>Date\<close> is its time value, milliseconds since the epoch, \<open>None\<close> for the
    invalid date (NaN);
  \<^item> what the runtime decides is a parameter, the record \<open>env\<close>: the
    implementation-defined parser behind \<open>new Date(string)\<close>, the offset of local
    time from UTC (taken as constant) and the current time;
  \<^item> an exception is a value of type \<open>error\<close>; an alert is a value of type \<open>alert\<close>;
  \<^item> React state is one record, passed in and returned.
\<close>

subsection \<open>Strings\<close>

definition isWhiteSpace :: "char \<Rightarrow> bool" where
  "isWhiteSpace c \<longleftrightarrow> c \<in> set [CHR '' '', CHR 0x09, CHR 0x0A, CHR 0x0B, CHR 0x0C, CHR 0x0D]"

definition trimStart :: "string \<Rightarrow> string" where
  "trimStart s = dropWhile isWhiteSpace s"

definition trim :: "string \<Rightarrow> string" where
  "trim s = rev (trimStart (rev (trimStart s)))"

definition toLowerChar :: "char \<Rightarrow> char" where
  "toLowerChar c =
     (case map_of (zip ''ABCDEFGHIJKLMNOPQRSTUVWXYZ'' ''abcdefghijklmnopqrstuvwxyz'') c of
        Some l \<Rightarrow> l
      | None \<Rightarrow> c)"

definition toLowerCase :: "string \<Rightarrow> string" where
  "toLowerCase s = map toLowerChar s"

text \<open>\<open>s.split(c)\<close> for a one-character separator: never the empty array.\<close>

fun split_str :: "char \<Rightarrow> string \<Rightarrow> string list" where
  "split_str c [] = [[]]"
| "split_str c (x # xs) =
     (if x = c then [] # split_str c xs
      else (case split_str c xs of
              [] \<Rightarrow> [[x]]
            | y # ys \<Rightarrow> (x # y) # ys))"

fun startsWith :: "string \<Rightarrow> string \<Rightarrow> bool" where
  "startsWith s [] = True"
| "startsWith [] (y # ys) = False"
| "startsWith (x # xs) (y # ys) = (x = y \<and> startsWith xs ys)"

text \<open>\<open>s.includes(n)\<close>.\<close>

fun includes_str :: "string \<Rightarrow> string \<Rightarrow> bool" where
  "includes_str [] n = (n = [])"
| "includes_str (x # xs) n = (startsWith (x # xs) n \<or> includes_str xs n)"

text \<open>\<open>s.padStart(2, '0')\<close>.\<close>

definition padStart2 :: "string \<Rightarrow> string" where
  "padStart2 s = replicate (2 - length s) CHR ''0'' @ s"

text \<open>\<open>xs.findIndex(p)\<close>: \<open>None\<close> is the index -1.\<close>

fun findIndex :: "('a \<Rightarrow> bool) \<Rightarrow> 'a list \<Rightarrow> nat option" where
  "findIndex p [] = None"
| "findIndex p (x # xs) =
     (if p x then Some 0 else map_option Suc (findIndex p xs))"


text \<open>The order of \<open><=\<close> on strings: lexicographic on the code units.\<close>

fun str_le :: "string \<Rightarrow> string \<Rightarrow> bool" where
  "str_le [] ys = True"
| "str_le (x # xs) [] = False"
| "str_le (x # xs) (y # ys) =
     ((of_char x :: nat) < of_char y \<or> (x = y \<and> str_le xs ys))"

subsection \<open>Numbers\<close>

datatype number = NaN | PosInfinity | NegInfinity | Finite rat

definition isDigit :: "char \<Rightarrow> bool" where
  "isDigit c \<longleftrightarrow> c \<in> set ''0123456789''"

definition digitVal :: "char \<Rightarrow> nat" where
  "digitVal c =
     (case map_of (zip ''0123456789'' [0, 1, 2, 3, 4, 5, 6, 7, 8, 9]) c of
        Some d \<Rightarrow> d
      | None \<Rightarrow> 0)"

definition digitsVal :: "string \<Rightarrow> nat" where
  "digitsVal ds = foldl (\<lambda>a c. 10 * a + digitVal c) 0 ds"

text \<open>
  The exponent part of a decimal literal, \<open>e\<close> or \<open>E\<close>, an optional sign and at
  least one digit; a text that does not start with one has the exponent 0.
\<close>

definition exponentPart :: "string \<Rightarrow> int" where
  "exponentPart s =
     (case s of
        [] \<Rightarrow> 0
      | c # r \<Rightarrow>
          if c = CHR ''e'' \<or> c = CHR ''E'' then
            (case r of
               [] \<Rightarrow> 0
             | sg # r' \<Rightarrow>
                 if sg = CHR ''-'' then
                   (if takeWhile isDigit r' = [] then 0
                    else - int (digitsVal (takeWhile isDigit r')))
                 else if sg = CHR ''+'' then int (digitsVal (takeWhile isDigit r'))
                 else int (digitsVal (takeWhile isDigit r)))
          else 0)"

definition pow10 :: "int \<Rightarrow> rat" where
  "pow10 e = (if 0 \<le> e then 10 ^ nat e else 1 / 10 ^ nat (- e))"

text \<open>
  The longest prefix that is an unsigned decimal literal: \<open>Infinity\<close>, digits with an
  optional fraction, or a dot followed by digits, each with an optional exponent.
\<close>

definition strUnsignedDecimalLiteral :: "string \<Rightarrow> number" where
  "strUnsignedDecimalLiteral s =
     (if startsWith s ''Infinity'' then PosInfinity
      else
        let ip = takeWhile isDigit s;
            r1 = dropWhile isDigit s;
            hasDot = (r1 \<noteq> [] \<and> hd r1 = CHR ''.'');
            fp = (if hasDot then takeWhile isDigit (tl r1) else []);
            r2 = (if hasDot then dropWhile isDigit (tl r1) else r1)
        in if ip = [] \<and> fp = [] then NaN
           else Finite (of_nat (digitsVal (ip @ fp)) / 10 ^ length fp * pow10 (exponentPart r2)))"

definition negate :: "number \<Rightarrow> number" where
  "negate n =
     (case n of
        NaN \<Rightarrow> NaN
      | PosInfinity \<Rightarrow> NegInfinity
      | NegInfinity \<Rightarrow> PosInfinity
      | Finite q \<Rightarrow> Finite (- q))"

definition parseFloat :: "string \<Rightarrow> number" where
  "parseFloat s =
     (case trimStart s of
        [] \<Rightarrow> NaN
      | c # r \<Rightarrow>
          if c = CHR ''-'' then negate (strUnsignedDecimalLiteral r)
          else if c = CHR ''+'' then strUnsignedDecimalLiteral r
          else strUnsignedDecimalLiteral (c # r))"

text \<open>
  The test \<open>isNaN(temp) || temp < 95 || temp > 105\<close> of both entry paths: the
  temperature that passes it, \<open>None\<close> when the test rejects the number.
\<close>

definition validTemp :: "number \<Rightarrow> rat option" where
  "validTemp n =
     (case n of
        Finite q \<Rightarrow> if q < 95 \<or> q > 105 then None else Some q
      | _ \<Rightarrow> None)"

definition digitChar :: "nat \<Rightarrow> char" where
  "digitChar d = ''0123456789'' ! (d mod 10)"

fun natToString :: "nat \<Rightarrow> string" where
  "natToString n =
     (if n < 10 then [digitChar n] else natToString (n div 10) @ [digitChar (n mod 10)])"



text \<open>\<open>Math.round\<close>: to the nearest integer, a half going up.\<close>

definition Math_round :: "rat \<Rightarrow> int" where
  "Math_round q = \<lfloor>q + 1 / 2\<rfloor>"

text \<open>The truncation of \<open>ToIntegerOrInfinity\<close>.\<close>

definition toInteger :: "rat \<Rightarrow> int" where
  "toInteger q = (if 0 \<le> q then \<lfloor>q\<rfloor> else \<lceil>q\<rceil>)"

subsection \<open>Dates\<close>

text \<open>
  The runtime: \<open>Date_parse\<close> is the parser behind \<open>new Date(string)\<close>, which
  ECMAScript fixes for the ISO format only and otherwise leaves to the implementation;
  \<open>LocalTZA\<close> is the offset of local time from UTC in milliseconds; \<open>now\<close> is the
  time value of \<open>new Date()\<close>.
\<close>

record env =
  Date_parse :: "string \<Rightarrow> int option"
  LocalTZA :: int
  now :: int

definition msPerDay :: int where
  "msPerDay = 86400000"

definition Day :: "int \<Rightarrow> int" where
  "Day t = t div msPerDay"

definition TimeWithinDay :: "int \<Rightarrow> int" where
  "TimeWithinDay t = t mod msPerDay"

text \<open>
  The proleptic Gregorian calendar: the day number (days since 1970-01-01) of a year,
  a month from 1 to 12 and a day of the month, and back.
\<close>

definition daysFromCivil :: "int \<Rightarrow> int \<Rightarrow> int \<Rightarrow> int" where
  "daysFromCivil y m d =
     (let y' = (if m \<le> 2 then y - 1 else y);
          era = y' div 400;
          yoe = y' - era * 400;
          doy = (153 * (if 2 < m then m - 3 else m + 9) + 2) div 5 + d - 1;
          doe = yoe * 365 + yoe div 4 - yoe div 100 + doy
      in era * 146097 + doe - 719468)"

definition civilFromDays :: "int \<Rightarrow> int \<times> int \<times> int" where
  "civilFromDays z =
     (let z' = z + 719468;
          era = z' div 146097;
          doe = z' mod 146097;
          yoe = (doe - doe div 1460 + doe div 36524 - doe div 146096) div 365;
          doy = doe - (365 * yoe + yoe div 4 - yoe div 100);
          mp = (5 * doy + 2) div 153;
          d = doy - (153 * mp + 2) div 5 + 1;
          m = (if mp < 10 then mp + 3 else mp - 9);
          y = yoe + era * 400
      in (if m \<le> 2 then y + 1 else y, m, d))"

definition YearFromTime :: "int \<Rightarrow> int" where
  "YearFromTime t = fst (civilFromDays (Day t))"

text \<open>The month of a time value, from 0 to 11.\<close>

definition MonthFromTime :: "int \<Rightarrow> int" where
  "MonthFromTime t = fst (snd (civilFromDays (Day t))) - 1"

text \<open>The day of the month of a time value, from 1.\<close>

definition DateFromTime :: "int \<Rightarrow> int" where
  "DateFromTime t = snd (snd (civilFromDays (Day t)))"

definition MakeDay :: "int \<Rightarrow> int \<Rightarrow> int \<Rightarrow> int" where
  "MakeDay year month dt =
     daysFromCivil (year + month div 12) (month mod 12 + 1) 1 + dt - 1"

definition MakeDate :: "int \<Rightarrow> int \<Rightarrow> int" where
  "MakeDate day time = day * msPerDay + time"

definition TimeClip :: "int \<Rightarrow> int option" where
  "TimeClip t = (if \<bar>t\<bar> \<le> 8640000000000000 then Some t else None)"

definition LocalTime :: "env \<Rightarrow> int \<Rightarrow> int" where
  "LocalTime e t = t + LocalTZA e"

definition UTC :: "env \<Rightarrow> int \<Rightarrow> int" where
  "UTC e t = t - LocalTZA e"

text \<open>\<open>d.getDate()\<close>: the day of the month in local time, NaN for the invalid date.\<close>

definition getDate :: "env \<Rightarrow> int option \<Rightarrow> int option" where
  "getDate e tv = map_option (\<lambda>t. DateFromTime (LocalTime e t)) tv"

text \<open>
  \<open>d.setDate(dt)\<close>: the day of the month is set in local time, the argument cut to
  an integer by \<open>MakeDay\<close>; the result is the new time value.
\<close>

definition setDate :: "env \<Rightarrow> int option \<Rightarrow> rat option \<Rightarrow> int option" where
  "setDate e tv dt =
     (case tv of
        None \<Rightarrow> None
      | Some t \<Rightarrow>
          (case dt of
             None \<Rightarrow> None
           | Some q \<Rightarrow>
               let lt = LocalTime e t;
                   newDate = MakeDate (MakeDay (YearFromTime lt) (MonthFromTime lt) (toInteger q))
                               (TimeWithinDay lt)
               in TimeClip (UTC e newDate)))"

definition pad :: "nat \<Rightarrow> nat \<Rightarrow> string" where
  "pad w n = replicate (w - length (natToString n)) CHR ''0'' @ natToString n"

definition yearString :: "int \<Rightarrow> string" where
  "yearString y =
     (if 0 \<le> y \<and> y \<le> 9999 then pad 4 (nat y)
      else (if y < 0 then ''-'' else ''+'') @ pad 6 (nat \<bar>y\<bar>))"

text \<open>\<open>d.toISOString()\<close> of a valid date; the invalid date raises \<open>RangeError\<close>.\<close>

definition toISOString :: "int \<Rightarrow> string" where
  "toISOString t =
     (let w = TimeWithinDay t
      in yearString (YearFromTime t) @ ''-'' @ pad 2 (nat (MonthFromTime t + 1)) @ ''-'' @
         pad 2 (nat (DateFromTime t)) @ ''T'' @ pad 2 (nat (w div 3600000)) @ '':'' @
         pad 2 (nat (w div 60000 mod 60)) @ '':'' @ pad 2 (nat (w div 1000 mod 60)) @ ''.'' @
         pad 3 (nat (w mod 1000)) @ ''Z'')"

text \<open>\<open>d.toISOString().split('T')[0]\<close>.\<close>

definition isoDate :: "int \<Rightarrow> string" where
  "isoDate t = hd (split_str CHR ''T'' (toISOString t))"

text \<open>
  A parser for the date-only form \<open>YYYY-MM-DD\<close> of the ISO format, which every
  implementation reads as midnight UTC; every other text is the invalid date here.
  It stands for \<open>Date_parse\<close> where an example needs a concrete runtime.
\<close>

definition daysInMonth :: "int \<Rightarrow> int \<Rightarrow> int" where
  "daysInMonth y m =
     (if m = 2 then (if y mod 4 = 0 \<and> (y mod 100 \<noteq> 0 \<or> y mod 400 = 0) then 29 else 28)
      else if m = 4 \<or> m = 6 \<or> m = 9 \<or> m = 11 then 30 else 31)"

definition isoParse :: "string \<Rightarrow> int option" where
  "isoParse s =
     (if length s = 10 \<and> s ! 4 = CHR ''-'' \<and> s ! 7 = CHR ''-'' \<and>
         list_all isDigit (take 4 s) \<and> list_all isDigit (take 2 (drop 5 s)) \<and>
         list_all isDigit (drop 8 s)
      then
        let y = int (digitsVal (take 4 s));
            m = int (digitsVal (take 2 (drop 5 s)));
            d = int (digitsVal (drop 8 s))
        in if 1 \<le> m \<and> m \<le> 12 \<and> 1 \<le> d \<and> d \<le> daysInMonth y m
           then Some (daysFromCivil y m d * msPerDay)
           else None
      else None)"

definition isoEnv :: "int \<Rightarrow> env" where
  "isoEnv tz = \<lparr>Date_parse = isoParse, LocalTZA = tz, now = 1717200000000\<rparr>"

subsection \<open>The data\<close>

record reading =
  date :: string
  temperature :: rat
  cervixHeight :: "string option"
  ovulationStrip :: bool
  dateObj :: "int option"

text \<open>An entry of \<open>sevenDayAverages\<close>, and a fertile window: the same with its month.\<close>

record week =
  startDate :: string
  endDate :: string
  avgTemp :: rat
  weekTemps :: "reading list"

record window = week +
  month :: string

text \<open>
  The prediction: its fields \<open>startDate\<close> and \<open>endDate\<close> are named \<open>nextStart\<close>
  and \<open>nextEnd\<close> here, apart from those of a window.
\<close>

record prediction =
  nextStart :: string
  nextEnd :: string
  cycleLength :: int

text \<open>The state of the component: the store, the form fields and the derived results.\<close>

record state =
  temperatures :: "reading list"
  newTemp :: string
  selectedDate :: string
  fertileWindows :: "window list"
  prediction :: "prediction option"
  cervixHeightInput :: string
  ovulationStripInput :: bool

datatype error = TypeError | RangeError

datatype alert =
    InvalidTemperature
  | MissingColumns
  | NoValidData
  | Imported nat
  | ReadError
  | NoData

definition initialState :: "env \<Rightarrow> state" where
  "initialState e =
     \<lparr>temperatures = [], newTemp = [], selectedDate = isoDate (now e), fertileWindows = [],
      prediction = None, cervixHeightInput = [], ovulationStripInput = False\<rparr>"

subsection \<open>The record store\<close>

text \<open>
  The comparator \<open>(a, b) => new Date(a.date) - new Date(b.date)\<close> is positive when
  both dates are valid and the first is later; NaN counts as zero. The sort is stable:
  an insertion sort that puts a reading before the first one that is not earlier. When
  a stored date is invalid the comparator is not consistent and ECMAScript leaves the
  order to the implementation; the model then gives the order of this insertion sort.
\<close>

definition dateAfter :: "env \<Rightarrow> reading \<Rightarrow> reading \<Rightarrow> bool" where
  "dateAfter e a b =
     (case Date_parse e (date a) of
        None \<Rightarrow> False
      | Some x \<Rightarrow> (case Date_parse e (date b) of None \<Rightarrow> False | Some y \<Rightarrow> y < x))"

fun insertByDate :: "env \<Rightarrow> reading \<Rightarrow> reading list \<Rightarrow> reading list" where
  "insertByDate e x [] = [x]"
| "insertByDate e x (y # ys) =
     (if dateAfter e x y then y # insertByDate e x ys else x # y # ys)"

definition sortByDate :: "env \<Rightarrow> reading list \<Rightarrow> reading list" where
  "sortByDate e xs = foldr (insertByDate e) xs []"

definition addTemperature :: "env \<Rightarrow> state \<Rightarrow> alert option \<times> state" where
  "addTemperature e st =
     (if newTemp st = [] \<or> selectedDate st = [] then (None, st)
      else
        (case validTemp (parseFloat (newTemp st)) of
           None \<Rightarrow> (Some InvalidTemperature, st)
         | Some temp \<Rightarrow>
             let existingIndex = findIndex (\<lambda>t. date t = selectedDate st) (temperatures st);
                 newEntry = \<lparr>date = selectedDate st, temperature = temp,
                             cervixHeight = (if cervixHeightInput st = [] then None
                                             else Some (cervixHeightInput st)),
                             ovulationStrip = ovulationStripInput st,
                             dateObj = Date_parse e (selectedDate st)\<rparr>;
                 updated = (case existingIndex of
                              Some i \<Rightarrow> (temperatures st)[i := newEntry]
                            | None \<Rightarrow> sortByDate e (temperatures st @ [newEntry]))
             in (None, st\<lparr>temperatures := updated, newTemp := [], cervixHeightInput := [],
                          ovulationStripInput := False, selectedDate := isoDate (now e)\<rparr>)))"

subsection \<open>The CSV codec: import\<close>

text \<open>
  \<open>row[i]?.trim()\<close> for an optional column: the empty string when the header has no
  such column, \<open>None\<close> (undefined) when the row is too short for it.
\<close>

definition optionalField :: "nat option \<Rightarrow> string list \<Rightarrow> string option" where
  "optionalField idx row =
     (case idx of
        None \<Rightarrow> Some []
      | Some i \<Rightarrow> if i < length row then Some (trim (row ! i)) else None)"

text \<open>
  The date of a row: \<open>Inr (Some d)\<close> is the text given to \<open>new Date\<close>,
  \<open>Inr None\<close> is \<open>undefined\<close> (slashes, but not three parts), \<open>Inl ()\<close> is the
  \<open>continue\<close> of a text with neither a slash nor a dash.
\<close>

definition rowDate :: "string \<Rightarrow> unit + string option" where
  "rowDate dateStr =
     (if includes_str dateStr ''/'' then
        (case split_str CHR ''/'' dateStr of
           [p0, p1, p2] \<Rightarrow>
             Inr (Some ((if length p2 = 2 then ''20'' @ p2 else p2) @ ''-'' @ padStart2 p0 @
                        ''-'' @ padStart2 p1))
         | _ \<Rightarrow> Inr None)
      else if includes_str dateStr ''-'' then Inr (Some dateStr)
      else Inl ())"

text \<open>
  One turn of the loop over the data lines: \<open>Inr None\<close> when the row is skipped or
  its date is already stored, \<open>Inr (Some r)\<close> when \<open>r\<close> is pushed, \<open>Inl TypeError\<close>
  when \<open>ovulationStr\<close> is undefined and \<open>toLowerCase\<close> is called on it.
\<close>

definition importRow ::
  "env \<Rightarrow> nat \<Rightarrow> nat \<Rightarrow> nat option \<Rightarrow> nat option \<Rightarrow> string list \<Rightarrow> string \<Rightarrow>
   error + reading option" where
  "importRow e dateIndex tempIndex cervixIndex ovulationIndex existingDates line =
     (let row = split_str CHR '','' line
      in if length row < max dateIndex tempIndex + 1 then Inr None
         else
           let dateStr = trim (row ! dateIndex);
               tempStr = trim (row ! tempIndex);
               cervixStr = optionalField cervixIndex row;
               ovulationStr = optionalField ovulationIndex row
           in (case rowDate dateStr of
                 Inl _ \<Rightarrow> Inr None
               | Inr dt \<Rightarrow>
                   (case validTemp (parseFloat tempStr) of
                      None \<Rightarrow> Inr None
                    | Some temp \<Rightarrow>
                        (case dt of
                           None \<Rightarrow> Inr None
                         | Some d \<Rightarrow>
                             (case Date_parse e d of
                                None \<Rightarrow> Inr None
                              | Some t \<Rightarrow>
                                  if d \<in> set existingDates then Inr None
                                  else
                                    (case ovulationStr of
                                       None \<Rightarrow> Inl TypeError
                                     | Some ov \<Rightarrow>
                                         Inr (Some
                                           \<lparr>date = d, temperature = temp,
                                            cervixHeight =
                                              (case cervixStr of
                                                 None \<Rightarrow> None
                                               | Some c \<Rightarrow> if c = [] then None else Some c),
                                            ovulationStrip =
                                              (toLowerCase ov = ''true'' \<or> ov = ''1'' \<or>
                                               toLowerCase ov = ''yes''),
                                            dateObj = Some t\<rparr>)))))))"

text \<open>The loop: the rows pushed to \<open>importedData\<close>, or the exception that ends it.\<close>

fun importRows ::
  "env \<Rightarrow> nat \<Rightarrow> nat \<Rightarrow> nat option \<Rightarrow> nat option \<Rightarrow> string list \<Rightarrow> string list \<Rightarrow>
   error + reading list" where
  "importRows e di ti ci oi existingDates [] = Inr []"
| "importRows e di ti ci oi existingDates (l # ls) =
     (case importRow e di ti ci oi existingDates l of
        Inl err \<Rightarrow> Inl err
      | Inr r \<Rightarrow>
          (case importRows e di ti ci oi existingDates ls of
             Inl err \<Rightarrow> Inl err
           | Inr rs \<Rightarrow> Inr ((case r of None \<Rightarrow> [] | Some x \<Rightarrow> [x]) @ rs)))"

text \<open>
  \<open>importCSV\<close> for a file that was read as the text \<open>csvText\<close>: the alert shown
  and the state afterwards. An exception in the \<open>try\<close> block is caught and reported
  by the alert \<open>ReadError\<close>.
\<close>

definition importCSV :: "env \<Rightarrow> string \<Rightarrow> state \<Rightarrow> alert option \<times> state" where
  "importCSV e csvText st =
     (let lines = split_str CHR 0x0A (trim csvText);
          headers = map (\<lambda>h. toLowerCase (trim h)) (split_str CHR '','' (hd lines));
          dateIndex = findIndex (\<lambda>h. includes_str h ''date'') headers;
          tempIndex = findIndex (\<lambda>h. includes_str h ''temp'') headers;
          cervixIndex = findIndex (\<lambda>h. includes_str h ''cervix'' \<or> includes_str h ''height'') headers;
          ovulationIndex =
            findIndex (\<lambda>h. includes_str h ''ovulation'' \<or> includes_str h ''strip'') headers
      in (case dateIndex of
            None \<Rightarrow> (Some MissingColumns, st)
          | Some di \<Rightarrow>
              (case tempIndex of
                 None \<Rightarrow> (Some MissingColumns, st)
               | Some ti \<Rightarrow>
                   (case importRows e di ti cervixIndex ovulationIndex
                           (map date (temperatures st)) (tl lines) of
                      Inl err \<Rightarrow> (Some ReadError, st)
                    | Inr importedData \<Rightarrow>
                        if importedData = [] then (Some NoValidData, st)
                        else (Some (Imported (length importedData)),
                              st\<lparr>temperatures :=
                                   sortByDate e (temperatures st @ importedData)\<rparr>)))))"

subsection \<open>The fertile window detector\<close>

definition monthKey :: "reading \<Rightarrow> string" where
  "monthKey t = take 7 (date t)"

text \<open>\<open>Object.keys(months).sort()\<close>: the distinct month keys in ascending order.\<close>

fun insertKey :: "string \<Rightarrow> string list \<Rightarrow> string list" where
  "insertKey k [] = [k]"
| "insertKey k (x # xs) = (if str_le k x then k # x # xs else x # insertKey k xs)"

definition monthKeys :: "reading list \<Rightarrow> string list" where
  "monthKeys sortedTemps = foldr insertKey (remdups (map monthKey sortedTemps)) []"

text \<open>
  \<open>months[k]\<close>: the readings of the month, in the order of \<open>sortedTemps\<close>. The
  object \<open>months\<close> is used as a dictionary from month keys to arrays; the names it
  inherits from \<open>Object.prototype\<close> are no prefixes of dates and are not modelled.
\<close>

definition monthTempsOf :: "reading list \<Rightarrow> string \<Rightarrow> reading list" where
  "monthTempsOf sortedTemps k = filter (\<lambda>t. monthKey t = k) sortedTemps"

text \<open>The entry of \<open>sevenDayAverages\<close> for the offset \<open>i\<close>.\<close>

definition weekAt :: "reading list \<Rightarrow> nat \<Rightarrow> week" where
  "weekAt monthTemps i =
     (let weekTemps = take 7 (drop i monthTemps)
      in \<lparr>startDate = date (weekTemps ! 0), endDate = date (weekTemps ! 6),
          avgTemp = foldl (\<lambda>sum t. sum + temperature t) 0 weekTemps / 7,
          weekTemps = weekTemps\<rparr>)"

text \<open>The loop \<open>for (let i = 0; i <= monthTemps.length - 7; i++)\<close>.\<close>

definition sevenDayAverages :: "reading list \<Rightarrow> week list" where
  "sevenDayAverages monthTemps =
     map (weekAt monthTemps)
       (filter (\<lambda>i. int i \<le> int (length monthTemps) - 7) [0..<length monthTemps])"

text \<open>
  \<open>reduce\<close> without an initial value: the first entry starts, a later one replaces
  the maximum only when it is strictly warmer; an empty array raises \<open>TypeError\<close>.
\<close>

definition highestWeek :: "week list \<Rightarrow> error + week" where
  "highestWeek avgs =
     (case avgs of
        [] \<Rightarrow> Inl TypeError
      | a # as \<Rightarrow>
          Inr (foldl (\<lambda>mx current. if avgTemp current > avgTemp mx then current else mx) a as))"

text \<open>The body of \<open>monthKeys.forEach\<close>: the windows pushed for one month.\<close>

definition monthWindows :: "reading list \<Rightarrow> string \<Rightarrow> error + window list" where
  "monthWindows sortedTemps k =
     (let monthTemps = monthTempsOf sortedTemps k
      in if length monthTemps \<ge> 14 then
           (case highestWeek (sevenDayAverages monthTemps) of
              Inl err \<Rightarrow> Inl err
            | Inr w \<Rightarrow>
                Inr [\<lparr>startDate = startDate w, endDate = endDate w, avgTemp = avgTemp w,
                      weekTemps = weekTemps w, month = k\<rparr>])
         else Inr [])"

fun collectWindows :: "reading list \<Rightarrow> string list \<Rightarrow> error + window list" where
  "collectWindows sortedTemps [] = Inr []"
| "collectWindows sortedTemps (k # ks) =
     (case monthWindows sortedTemps k of
        Inl err \<Rightarrow> Inl err
      | Inr ws \<Rightarrow>
          (case collectWindows sortedTemps ks of
             Inl err \<Rightarrow> Inl err
           | Inr rest \<Rightarrow> Inr (ws @ rest)))"

text \<open>The array \<open>windows\<close> that \<open>analyzeFertileWindows\<close> builds from the store.\<close>

definition detectWindows :: "env \<Rightarrow> reading list \<Rightarrow> error + window list" where
  "detectWindows e temps =
     (let sortedTemps = sortByDate e temps
      in collectWindows sortedTemps (monthKeys sortedTemps))"

subsection \<open>The cycle predictor\<close>

definition calculateCycleLength :: "env \<Rightarrow> window \<Rightarrow> int option" where
  "calculateCycleLength e fertileWindow =
     (case getDate e (Date_parse e (startDate fertileWindow)) of
        None \<Rightarrow> None
      | Some dayOfMonth \<Rightarrow> Some (max 21 (min 35 (28 + (dayOfMonth - 14)))))"

text \<open>\<open>(cycleLength1 + cycleLength2) / 2\<close>, NaN when one of them is.\<close>

definition average2 :: "int option \<Rightarrow> int option \<Rightarrow> rat option" where
  "average2 a b =
     (case a of
        None \<Rightarrow> None
      | Some x \<Rightarrow> (case b of None \<Rightarrow> None | Some y \<Rightarrow> Some ((of_int x + of_int y) / 2)))"

text \<open>\<open>d.getDate() + x\<close>.\<close>

definition plusDate :: "int option \<Rightarrow> rat option \<Rightarrow> rat option" where
  "plusDate d x =
     (case d of
        None \<Rightarrow> None
      | Some n \<Rightarrow> (case x of None \<Rightarrow> None | Some q \<Rightarrow> Some (of_int n + q)))"

text \<open>
  \<open>Inr None\<close> is the early return, \<open>Inr (Some p)\<close> the prediction given to
  \<open>setPrediction\<close>, \<open>Inl RangeError\<close> the exception of \<open>toISOString\<close> on an invalid
  date.
\<close>

definition predictNextFertileWindow :: "env \<Rightarrow> window list \<Rightarrow> error + prediction option" where
  "predictNextFertileWindow e windows =
     (if length windows < 2 then Inr None
      else
        let lastTwo = drop (length windows - 2) windows;
            cycleLength1 = calculateCycleLength e (lastTwo ! 0);
            cycleLength2 = calculateCycleLength e (lastTwo ! 1);
            avgCycleLength = average2 cycleLength1 cycleLength2;
            lastFertileStart = Date_parse e (startDate (lastTwo ! 1));
            nextFertileStart =
              setDate e lastFertileStart (plusDate (getDate e lastFertileStart) avgCycleLength);
            nextFertileEnd =
              setDate e nextFertileStart (plusDate (getDate e nextFertileStart) (Some 6))
        in (case nextFertileStart of
              None \<Rightarrow> Inl RangeError
            | Some s \<Rightarrow>
                (case nextFertileEnd of
                   None \<Rightarrow> Inl RangeError
                 | Some en \<Rightarrow>
                     (case avgCycleLength of
                        None \<Rightarrow> Inl RangeError
                      | Some avg \<Rightarrow>
                          Inr (Some \<lparr>nextStart = isoDate s, nextEnd = isoDate en,
                                     cycleLength = Math_round avg\<rparr>)))))"

text \<open>
  \<open>analyzeFertileWindows\<close>, run by the effect after every change of the store: with
  fewer than 14 readings it returns at once and leaves the derived state as it was.
\<close>

definition analyzeFertileWindows :: "env \<Rightarrow> state \<Rightarrow> error + state" where
  "analyzeFertileWindows e st =
     (if length (temperatures st) < 14 then Inr st
      else
        (case detectWindows e (temperatures st) of
           Inl err \<Rightarrow> Inl err
         | Inr windows \<Rightarrow>
             if length windows \<ge> 2 then
               (case predictNextFertileWindow e windows of
                  Inl err \<Rightarrow> Inl err
                | Inr None \<Rightarrow> Inr (st\<lparr>fertileWindows := windows\<rparr>)
                | Inr (Some p) \<Rightarrow> Inr (st\<lparr>fertileWindows := windows, prediction := Some p\<rparr>))
             else Inr (st\<lparr>fertileWindows := windows\<rparr>)))"

subsection \<open>The CSV codec: export\<close>





subsection \<open>Example data\<close>

text \<open>A reading without secondary signals, as the import stores it under \<open>isoEnv\<close>.\<close>

definition mkReading :: "string \<Rightarrow> rat \<Rightarrow> reading" where
  "mkReading d t =
     \<lparr>date = d, temperature = t, cervixHeight = None, ovulationStrip = False,
      dateObj = isoParse d\<rparr>"

text \<open>A file with two rows for the same day.\<close>

definition duplicateCsv :: string where
  "duplicateCsv =
     ''Date,Temp'' @ [CHR 0x0A] @ ''2024-02-01,98.2'' @ [CHR 0x0A] @ ''2024-02-01,99.0''"

text \<open>A file whose header names an ovulation column that its only row does not reach.\<close>

definition shortRowCsv :: string where
  "shortRowCsv = ''Date,Temp,Ovulation Strip'' @ [CHR 0x0A] @ ''2024-02-01,98.2''"

text \<open>A file whose header names a cervix column that its only row does not reach.\<close>

definition shortCervixCsv :: string where
  "shortCervixCsv = ''Date,Temp,Cervix Height'' @ [CHR 0x0A] @ ''2024-02-01,98.2''"

text \<open>A store that holds one reading, for 1 February 2024.\<close>

definition oneReadingState :: state where
  "oneReadingState = (initialState (isoEnv 0))\<lparr>temperatures := [mkReading ''2024-02-01'' 98]\<rparr>"

text \<open>Two windows, of January and February 2024, starting on the 10th and on the 9th.\<close>

definition janWindow :: window where
  "janWindow =
     \<lparr>startDate = ''2024-01-10'', endDate = ''2024-01-16'', avgTemp = 98, weekTemps = [],
      month = ''2024-01''\<rparr>"

definition febWindow :: window where
  "febWindow =
     \<lparr>startDate = ''2024-02-09'', endDate = ''2024-02-15'', avgTemp = 98, weekTemps = [],
      month = ''2024-02''\<rparr>"

text \<open>A window that starts on the first day of March 2024.\<close>

definition marchWindow :: window where
  "marchWindow =
     \<lparr>startDate = ''2024-03-01'', endDate = ''2024-03-07'', avgTemp = 98, weekTemps = [],
      month = ''2024-03''\<rparr>"

text \<open>A store of fourteen readings of January 2024, every second day, all at 97 degrees.\<close>

definition gapStore :: "reading list" where
  "gapStore =
     [mkReading ''2024-01-01'' 97, mkReading ''2024-01-03'' 97, mkReading ''2024-01-05'' 97,
      mkReading ''2024-01-07'' 97, mkReading ''2024-01-09'' 97, mkReading ''2024-01-11'' 97,
      mkReading ''2024-01-13'' 97, mkReading ''2024-01-15'' 97, mkReading ''2024-01-17'' 97,
      mkReading ''2024-01-19'' 97, mkReading ''2024-01-21'' 97, mkReading ''2024-01-23'' 97,
      mkReading ''2024-01-25'' 97, mkReading ''2024-01-27'' 97]"

text \<open>The window the detector finds in \<open>gapStore\<close>.\<close>

definition gapWindow :: window where
  "gapWindow =
     \<lparr>startDate = ''2024-01-01'', endDate = ''2024-01-13'', avgTemp = 97,
      weekTemps = take 7 gapStore, month = ''2024-01''\<rparr>"

text \<open>
  A store of the first sixteen days of January 2024: 97 degrees, and 98 degrees from
  the 10th on.
\<close>

definition warmStore :: "reading list" where
  "warmStore =
     [mkReading ''2024-01-01'' 97, mkReading ''2024-01-02'' 97, mkReading ''2024-01-03'' 97,
      mkReading ''2024-01-04'' 97, mkReading ''2024-01-05'' 97, mkReading ''2024-01-06'' 97,
      mkReading ''2024-01-07'' 97, mkReading ''2024-01-08'' 97, mkReading ''2024-01-09'' 97,
      mkReading ''2024-01-10'' 98, mkReading ''2024-01-11'' 98, mkReading ''2024-01-12'' 98,
      mkReading ''2024-01-13'' 98, mkReading ''2024-01-14'' 98, mkReading ''2024-01-15'' 98,
      mkReading ''2024-01-16'' 98]"

text \<open>The window the detector finds in \<open>warmStore\<close>.\<close>

definition warmWindow :: window where
  "warmWindow =
     \<lparr>startDate = ''2024-01-10'', endDate = ''2024-01-16'', avgTemp = 98,
      weekTemps = drop 9 warmStore, month = ''2024-01''\<rparr>"





text \<open>The form filled to replace the reading of \<open>oneReadingState\<close>.\<close>

definition replaceForm :: state where
  "replaceForm = oneReadingState\<lparr>newTemp := ''99.1'', selectedDate := ''2024-02-01''\<rparr>"

text \<open>A file with one good row, one row with an impossible date and one out of range.\<close>

definition scenarioCsv :: string where
  "scenarioCsv =
     ''Date,Temp'' @ [CHR 0x0A] @ ''2024-02-01,98.2'' @ [CHR 0x0A] @ ''13/40/2024,99.0'' @
     [CHR 0x0A] @ ''2024-02-02,150'' @ [CHR 0x0A]"

subsection \<open>Vocabulary of the properties\<close>

text \<open>The second date is the calendar day after the first.\<close>

definition nextDay :: "env \<Rightarrow> string \<Rightarrow> string \<Rightarrow> bool" where
  "nextDay e a b =
     (case Date_parse e a of None \<Rightarrow> False | Some t \<Rightarrow> Date_parse e b = Some (t + msPerDay))"

text \<open>The time value of a date a number of days later.\<close>

definition plusDays :: "env \<Rightarrow> string \<Rightarrow> int \<Rightarrow> int option" where
  "plusDays e a n = map_option (\<lambda>t. t + n * msPerDay) (Date_parse e a)"

text \<open>
  The window \<open>w\<close> is the week at offset \<open>i\<close> of the readings \<open>g\<close> of its month:
  no week of the month is warmer and every earlier week is colder.
\<close>

definition chosen :: "reading list \<Rightarrow> window \<Rightarrow> nat \<Rightarrow> bool" where
  "chosen g w i \<longleftrightarrow>
     i + 7 \<le> length g \<and> startDate w = startDate (weekAt g i) \<and>
     endDate w = endDate (weekAt g i) \<and> avgTemp w = avgTemp (weekAt g i) \<and>
     weekTemps w = weekTemps (weekAt g i) \<and>
     (\<forall>j. j + 7 \<le> length g \<longrightarrow> avgTemp (weekAt g j) \<le> avgTemp (weekAt g i)) \<and>
     (\<forall>j<i. avgTemp (weekAt g j) < avgTemp (weekAt g i))"




section \<open>Properties\<close>

subsection \<open>Sorting keeps the readings\<close>

lemma mset_insertByDate: "mset (insertByDate e x ys) = add_mset x (mset ys)"
  by (induction ys) simp_all

lemma mset_sortByDate: "mset (sortByDate e xs) = mset xs"
  unfolding sortByDate_def by (induction xs) (simp_all add: mset_insertByDate)


lemma length_sortByDate: "length (sortByDate e xs) = length xs"
  using mset_sortByDate [of e xs] by (metis size_mset)

subsection \<open>Import\<close>

lemma importRow_new_date:
  assumes "importRow e di ti ci oi existing l = Inr (Some r)"
  shows "date r \<notin> set existing"
  using assms
  unfolding importRow_def Let_def
  by (auto split: if_splits sum.splits option.splits)

lemma importRows_new_dates:
  "importRows e di ti ci oi existing ls = Inr rs \<Longrightarrow> r \<in> set rs \<Longrightarrow> date r \<notin> set existing"
proof (induction ls arbitrary: rs)
  case Nil
  then show ?case by simp
next
  case (Cons l ls)
  then show ?case
    by (auto split: sum.splits option.splits dest: importRow_new_date)
qed

lemma importCSV_store:
  "temperatures (snd (importCSV e csvText st)) = temperatures st \<or>
   (\<exists>importedData. mset (temperatures (snd (importCSV e csvText st))) =
        mset (temperatures st) + mset importedData \<and>
        (\<forall>r \<in> set importedData. date r \<notin> date ` set (temperatures st)))"
proof (cases "temperatures (snd (importCSV e csvText st)) = temperatures st")
  case True
  then show ?thesis by simp
next
  case False
  then obtain di ti ci oi ls imp where
    rows: "importRows e di ti ci oi (map date (temperatures st)) ls = Inr imp" and
    res: "temperatures (snd (importCSV e csvText st)) = sortByDate e (temperatures st @ imp)"
    unfolding importCSV_def Let_def
    by (auto split: option.splits sum.splits if_splits)
  have "\<forall>r \<in> set imp. date r \<notin> date ` set (temperatures st)"
    using importRows_new_dates [OF rows] by simp
  moreover have "mset (temperatures (snd (importCSV e csvText st))) =
      mset (temperatures st) + mset imp"
    by (simp add: res mset_sortByDate)
  ultimately show ?thesis by blast
qed

text \<open>
  Claim C9. A CSV import neither changes nor removes a reading of the store: after
  the import, whatever the file and whatever the alert, the readings whose date was
  present before are exactly the readings of the store before, each as often as before.
  So a row whose date is already stored adds nothing, and nothing stored is replaced.
\<close>

theorem C9_import_keeps_existing_readings:
  "filter_mset (\<lambda>r. date r \<in> date ` set (temperatures st))
     (mset (temperatures (snd (importCSV e csvText st)))) = mset (temperatures st)"
proof -
  let ?old = "temperatures st"
  have keep: "filter_mset (\<lambda>r. date r \<in> date ` set ?old) (mset ?old) = mset ?old"
    by (simp add: filter_mset_eq_conv)
  from importCSV_store [of e csvText st] show ?thesis
  proof
    assume "temperatures (snd (importCSV e csvText st)) = ?old"
    with keep show ?thesis by simp
  next
    assume "\<exists>importedData. mset (temperatures (snd (importCSV e csvText st))) =
        mset ?old + mset importedData \<and>
        (\<forall>r \<in> set importedData. date r \<notin> date ` set ?old)"
    then obtain imp where
      m: "mset (temperatures (snd (importCSV e csvText st))) = mset ?old + mset imp" and
      new: "\<forall>r \<in> set imp. date r \<notin> date ` set ?old"
      by blast
    have "filter_mset (\<lambda>r. date r \<in> date ` set ?old) (mset imp) = {#}"
      using new by (simp add: filter_mset_eq_mempty_iff)
    with m keep show ?thesis by simp
  qed
qed

text \<open>
  The store of \<open>oneReadingState\<close> holds 98 degrees for 1 February; the file
  \<open>duplicateCsv\<close> has two rows for that day: neither replaces the stored reading.
\<close>

theorem C9_import_keeps_existing_readings_witness:
  "filter_mset (\<lambda>r. date r \<in> date ` set (temperatures oneReadingState))
     (mset (temperatures (snd (importCSV (isoEnv 0) duplicateCsv oneReadingState)))) =
   {#mkReading ''2024-02-01'' 98#}"
  using C9_import_keeps_existing_readings [of oneReadingState "isoEnv 0" duplicateCsv]
  by (simp add: oneReadingState_def)

text \<open>
  Claim C3. The claim says that after any sequence of entries and imports the store
  holds at most one reading per date. The import compares the date of a row with the
  dates stored before the import only, not with the rows of the same file: importing
  \<open>duplicateCsv\<close>, two rows for 1 February 2024, into the empty store leaves two
  readings for that date.
\<close>

theorem C3_import_same_date_twice:
  "map date (temperatures (snd (importCSV (isoEnv 0) duplicateCsv (initialState (isoEnv 0))))) =
   [''2024-02-01'', ''2024-02-01'']"
  by code_simp

text \<open>
  Claim C10. The claim says that a row which reaches the date and temperature columns
  but not the ovulation column is imported with a negative test. The header of
  \<open>shortRowCsv\<close> names an ovulation column at index 2 and its row has two fields:
  \<open>ovulationStr\<close> is undefined, \<open>toLowerCase\<close> raises \<open>TypeError\<close>, the handler
  reports a read error and nothing is imported.
\<close>

theorem C10_short_row_aborts_import:
  "importCSV (isoEnv 0) shortRowCsv (initialState (isoEnv 0)) =
   (Some ReadError, initialState (isoEnv 0))"
  by code_simp

text \<open>
  A row that does not reach the cervix column is imported, without a secondary signal;
  so is a row of a file that names neither optional column, with a negative test.
\<close>

lemma short_cervix_row_is_imported:
  "map cervixHeight
     (temperatures (snd (importCSV (isoEnv 0) shortCervixCsv (initialState (isoEnv 0))))) =
     [None] \<and>
   map ovulationStrip
     (temperatures (snd (importCSV (isoEnv 0) duplicateCsv (initialState (isoEnv 0))))) =
     [False, False]"
  by code_simp

lemma predict_jan_feb:
  "predictNextFertileWindow (isoEnv 0) [janWindow, febWindow] =
     Inr (Some \<lparr>nextStart = ''2024-03-03'', nextEnd = ''2024-03-09'', cycleLength = 24\<rparr>)"
  by code_simp

text \<open>
  Claim C2. The claim says that the predicted start is the last start plus
  \<open>round(averageCycleLength)\<close> days, and so the last start plus \<open>cycleLength\<close>
  days. For windows starting on 10 January and 9 February the estimates are 24 and
  23 and their mean is 23.5: \<open>setDate\<close> cuts the sum to an integer, so the start is
  9 February plus 23 days, 3 March, while \<open>cycleLength\<close> is 24, for which the claim
  gives 4 March.
\<close>

theorem C2_prediction_start_is_truncated:
  "predictNextFertileWindow (isoEnv 0) [janWindow, febWindow] =
     Inr (Some \<lparr>nextStart = ''2024-03-03'', nextEnd = ''2024-03-09'', cycleLength = 24\<rparr>) \<and>
   map_option isoDate (setDate (isoEnv 0) (isoParse ''2024-02-09'') (Some (9 + 24))) =
     Some ''2024-03-04''"
proof -
  have "map_option isoDate (setDate (isoEnv 0) (isoParse ''2024-02-09'') (Some (9 + 24))) =
     Some ''2024-03-04''"
    by code_simp
  with predict_jan_feb show ?thesis by simp
qed

text \<open>
  Claim C7. The claim says that the estimate of a window is
  \<open>clamp(28 + (dayOfMonth - 14), 21, 35)\<close> for the day of the month of its start
  date, which gives 21 for a window starting on 1 March. \<open>new Date\<close> reads the date
  as midnight UTC and \<open>getDate\<close> answers in local time: five hours west of UTC the
  day of the month is 29 (of February) and the estimate is 35.
\<close>

theorem C7_estimate_west_of_UTC:
  "calculateCycleLength (isoEnv (- 18000000)) marchWindow = Some 35 \<and>
   calculateCycleLength (isoEnv 0) marchWindow = Some 21"
  by code_simp

subsection \<open>Direct entry\<close>

lemma findIndex_Some: "findIndex p xs = Some i \<Longrightarrow> i < length xs \<and> p (xs ! i)"
proof (induction xs arbitrary: i)
  case Nil
  then show ?case by simp
next
  case (Cons x xs)
  then show ?case by (auto split: if_splits)
qed

lemma validTemp_None_iff:
  "validTemp n = None \<longleftrightarrow>
     n = NaN \<or> n = PosInfinity \<or> n = NegInfinity \<or> (\<exists>q. n = Finite q \<and> (q < 95 \<or> 105 < q))"
  by (cases n) (simp_all add: validTemp_def)





subsection \<open>The detector\<close>

lemma filter_upt_less: "filter (\<lambda>i. i < m) [0..<n] = [0..<min m n]"
proof (induction n)
  case 0
  then show ?case by simp
next
  case (Suc n)
  show ?case
  proof (cases "n < m")
    case True
    then have "min m n = n" "min m (Suc n) = Suc n" by simp_all
    with Suc True show ?thesis by simp
  next
    case False
    then have "min m n = m" "min m (Suc n) = m" by simp_all
    with Suc False show ?thesis by simp
  qed
qed

lemma offsets_eq: "filter (\<lambda>i. int i \<le> int n - 7) [0..<n] = [0..<n - 6]"
proof -
  have "(\<lambda>i. int i \<le> int n - 7) = (\<lambda>i. i < n - 6)"
    by (rule ext) arith
  then show ?thesis
    by (simp add: filter_upt_less min_def)
qed

lemma sevenDayAverages_eq: "sevenDayAverages g = map (weekAt g) [0..<length g - 6]"
  by (simp add: sevenDayAverages_def offsets_eq)

lemma foldl_highest:
  fixes a :: week
  shows "\<exists>i<length (a # as).
      foldl (\<lambda>mx current. if avgTemp current > avgTemp mx then current else mx) a as = (a # as) ! i \<and>
      (\<forall>j<length (a # as). avgTemp ((a # as) ! j) \<le> avgTemp ((a # as) ! i)) \<and>
      (\<forall>j<i. avgTemp ((a # as) ! j) < avgTemp ((a # as) ! i))"
proof (induction as rule: rev_induct)
  case Nil
  then show ?case by simp
next
  case (snoc x xs)
  let ?f = "\<lambda>mx current. if avgTemp current > avgTemp mx then current else (mx :: week)"
  let ?l = "a # xs"
  let ?l' = "a # xs @ [x]"
  from snoc obtain i where i: "i < length ?l" and sel: "foldl ?f a xs = ?l ! i"
    and mx: "\<forall>j<length ?l. avgTemp (?l ! j) \<le> avgTemp (?l ! i)"
    and fst: "\<forall>j<i. avgTemp (?l ! j) < avgTemp (?l ! i)"
    by blast
  have old: "?l' ! j = ?l ! j" if "j < length ?l" for j
    using that nth_append [of ?l "[x]" j] by simp
  have new: "?l' ! length ?l = x"
    using nth_append_length [of ?l x "[]"] by simp
  have len: "length ?l' = Suc (length ?l)" by simp
  show ?case
  proof (cases "avgTemp x > avgTemp (?l ! i)")
    case True
    have A: "foldl ?f a (xs @ [x]) = ?l' ! length ?l"
      using True sel new by simp
    have B: "avgTemp (?l' ! j) \<le> avgTemp (?l' ! length ?l)" if "j < length ?l'" for j
    proof (cases "j < length ?l")
      case True
      then have "avgTemp (?l' ! j) \<le> avgTemp (?l ! i)" using mx old by simp
      with \<open>avgTemp x > avgTemp (?l ! i)\<close> show ?thesis unfolding new by simp
    next
      case False
      with that have "j = length ?l" by simp
      then show ?thesis by simp
    qed
    have C: "avgTemp (?l' ! j) < avgTemp (?l' ! length ?l)" if "j < length ?l" for j
    proof -
      have "avgTemp (?l' ! j) \<le> avgTemp (?l ! i)" using mx old that by simp
      with True show ?thesis unfolding new by simp
    qed
    show ?thesis
    proof (intro exI conjI)
      show "length ?l < length ?l'" by simp
      show "foldl ?f a (xs @ [x]) = ?l' ! length ?l" by (fact A)
      show "\<forall>j<length ?l'. avgTemp (?l' ! j) \<le> avgTemp (?l' ! length ?l)" using B by blast
      show "\<forall>j<length ?l. avgTemp (?l' ! j) < avgTemp (?l' ! length ?l)" using C by blast
    qed
  next
    case False
    have A: "foldl ?f a (xs @ [x]) = ?l' ! i"
      using False sel i old by simp
    have B: "avgTemp (?l' ! j) \<le> avgTemp (?l' ! i)" if "j < length ?l'" for j
    proof (cases "j < length ?l")
      case True
      then show ?thesis using mx old i by simp
    next
      case F: False
      with that have "j = length ?l" by simp
      then have "?l' ! j = x" using new by simp
      then show ?thesis using False old [OF i] by simp
    qed
    have C: "avgTemp (?l' ! j) < avgTemp (?l' ! i)" if "j < i" for j
    proof -
      have "j < length ?l" using that i by simp
      then have e1: "?l' ! j = ?l ! j" by (rule old)
      have e2: "?l' ! i = ?l ! i" using i by (rule old)
      from fst that have "avgTemp (?l ! j) < avgTemp (?l ! i)" by blast
      then show ?thesis unfolding e1 e2 .
    qed
    show ?thesis
    proof (intro exI conjI)
      show "i < length ?l'" using i by simp
      show "foldl ?f a (xs @ [x]) = ?l' ! i" by (fact A)
      show "\<forall>j<length ?l'. avgTemp (?l' ! j) \<le> avgTemp (?l' ! i)" using B by blast
      show "\<forall>j<i. avgTemp (?l' ! j) < avgTemp (?l' ! i)" using C by blast
    qed
  qed
qed

lemma foldl_sum_temperature:
  "foldl (\<lambda>sum t. sum + temperature t) a xs = a + sum_list (map temperature xs)"
  by (induction xs arbitrary: a) simp_all

lemma weekAt_fields:
  assumes "i + 7 \<le> length g"
  shows "startDate (weekAt g i) = date (g ! i)"
    and "endDate (weekAt g i) = date (g ! (i + 6))"
    and "weekTemps (weekAt g i) = take 7 (drop i g)"
    and "avgTemp (weekAt g i) = sum_list (map temperature (take 7 (drop i g))) / 7"
  using assms by (simp_all add: weekAt_def Let_def foldl_sum_temperature)

lemma highestWeek_offset:
  assumes "14 \<le> length g"
  shows "\<exists>i. i + 7 \<le> length g \<and> highestWeek (sevenDayAverages g) = Inr (weekAt g i) \<and>
           (\<forall>j. j + 7 \<le> length g \<longrightarrow> avgTemp (weekAt g j) \<le> avgTemp (weekAt g i)) \<and>
           (\<forall>j<i. avgTemp (weekAt g j) < avgTemp (weekAt g i))"
proof -
  let ?avgs = "sevenDayAverages g"
  have len: "length ?avgs = length g - 6" by (simp add: sevenDayAverages_eq)
  have nth: "?avgs ! j = weekAt g j" if "j < length g - 6" for j
    using that by (simp add: sevenDayAverages_eq)
  from assms len have "?avgs \<noteq> []" by auto
  then obtain a as where split: "?avgs = a # as" by (cases ?avgs) auto
  from foldl_highest [of a as] obtain i where
    i: "i < length (a # as)" and
    sel: "foldl (\<lambda>mx current. if avgTemp current > avgTemp mx then current else mx) a as = (a # as) ! i" and
    mx: "\<forall>j<length (a # as). avgTemp ((a # as) ! j) \<le> avgTemp ((a # as) ! i)" and
    first: "\<forall>j<i. avgTemp ((a # as) ! j) < avgTemp ((a # as) ! i)"
    by blast
  have i': "i < length g - 6" using i len split by simp
  have hw: "highestWeek ?avgs = Inr (weekAt g i)"
    using sel nth [OF i'] split by (simp add: highestWeek_def)
  have mx': "avgTemp (weekAt g j) \<le> avgTemp (weekAt g i)" if "j + 7 \<le> length g" for j
  proof -
    from that have j: "j < length g - 6" by simp
    then have "j < length (a # as)" using len split by simp
    with mx have "avgTemp ((a # as) ! j) \<le> avgTemp ((a # as) ! i)" by blast
    then show ?thesis using nth [OF j] nth [OF i'] split by simp
  qed
  have first': "avgTemp (weekAt g j) < avgTemp (weekAt g i)" if "j < i" for j
  proof -
    from that i' have j: "j < length g - 6" by simp
    from first that have "avgTemp ((a # as) ! j) < avgTemp ((a # as) ! i)" by blast
    then show ?thesis using nth [OF j] nth [OF i'] split by simp
  qed
  from i' have "i + 7 \<le> length g" by simp
  with hw mx' first' show ?thesis by blast
qed

lemma monthWindows_few:
  "length (monthTempsOf s k) < 14 \<Longrightarrow> monthWindows s k = Inr []"
  by (simp add: monthWindows_def Let_def)

lemma monthWindows_full:
  assumes "14 \<le> length (monthTempsOf s k)"
  shows "\<exists>i. i + 7 \<le> length (monthTempsOf s k) \<and>
           monthWindows s k =
             Inr [\<lparr>startDate = startDate (weekAt (monthTempsOf s k) i),
                   endDate = endDate (weekAt (monthTempsOf s k) i),
                   avgTemp = avgTemp (weekAt (monthTempsOf s k) i),
                   weekTemps = weekTemps (weekAt (monthTempsOf s k) i), month = k\<rparr>] \<and>
           (\<forall>j. j + 7 \<le> length (monthTempsOf s k) \<longrightarrow>
                avgTemp (weekAt (monthTempsOf s k) j) \<le> avgTemp (weekAt (monthTempsOf s k) i)) \<and>
           (\<forall>j<i. avgTemp (weekAt (monthTempsOf s k) j) < avgTemp (weekAt (monthTempsOf s k) i))"
proof -
  from highestWeek_offset [OF assms] obtain i where
    "i + 7 \<le> length (monthTempsOf s k)" and
    hw: "highestWeek (sevenDayAverages (monthTempsOf s k)) = Inr (weekAt (monthTempsOf s k) i)" and
    "\<forall>j. j + 7 \<le> length (monthTempsOf s k) \<longrightarrow>
         avgTemp (weekAt (monthTempsOf s k) j) \<le> avgTemp (weekAt (monthTempsOf s k) i)" and
    "\<forall>j<i. avgTemp (weekAt (monthTempsOf s k) j) < avgTemp (weekAt (monthTempsOf s k) i)"
    by blast
  moreover have "monthWindows s k =
             Inr [\<lparr>startDate = startDate (weekAt (monthTempsOf s k) i),
                   endDate = endDate (weekAt (monthTempsOf s k) i),
                   avgTemp = avgTemp (weekAt (monthTempsOf s k) i),
                   weekTemps = weekTemps (weekAt (monthTempsOf s k) i), month = k\<rparr>]"
    using assms hw by (simp add: monthWindows_def Let_def)
  ultimately show ?thesis by blast
qed

lemma collectWindows_spec:
  "\<exists>ws. collectWindows s ks = Inr ws \<and>
      map month ws = filter (\<lambda>k. 14 \<le> length (monthTempsOf s k)) ks \<and>
      (\<forall>w\<in>set ws. \<exists>i. chosen (monthTempsOf s (month w)) w i)"
proof (induction ks)
  case Nil
  then show ?case by simp
next
  case (Cons k ks)
  then obtain rest where
    rest: "collectWindows s ks = Inr rest" and
    months: "map month rest = filter (\<lambda>k. 14 \<le> length (monthTempsOf s k)) ks" and
    sel: "\<forall>w\<in>set rest. \<exists>i. chosen (monthTempsOf s (month w)) w i"
    by blast
  show ?case
  proof (cases "14 \<le> length (monthTempsOf s k)")
    case True
    from monthWindows_full [OF True] obtain i w where
      w: "w = \<lparr>startDate = startDate (weekAt (monthTempsOf s k) i),
                   endDate = endDate (weekAt (monthTempsOf s k) i),
                   avgTemp = avgTemp (weekAt (monthTempsOf s k) i),
                   weekTemps = weekTemps (weekAt (monthTempsOf s k) i), month = k\<rparr>" and
      mw: "monthWindows s k = Inr [w]" and
      i: "i + 7 \<le> length (monthTempsOf s k)" and
      mx: "\<forall>j. j + 7 \<le> length (monthTempsOf s k) \<longrightarrow>
                avgTemp (weekAt (monthTempsOf s k) j) \<le> avgTemp (weekAt (monthTempsOf s k) i)" and
      first: "\<forall>j<i. avgTemp (weekAt (monthTempsOf s k) j) < avgTemp (weekAt (monthTempsOf s k) i)"
      by blast
    have mk: "month w = k" by (simp add: w)
    have "chosen (monthTempsOf s (month w)) w i"
      unfolding chosen_def mk using i mx first by (simp add: w)
    then have "\<forall>w'\<in>set (w # rest). \<exists>i. chosen (monthTempsOf s (month w')) w' i"
      using sel by auto
    moreover have "collectWindows s (k # ks) = Inr (w # rest)"
      using mw rest by simp
    moreover have "map month (w # rest) = filter (\<lambda>k. 14 \<le> length (monthTempsOf s k)) (k # ks)"
      using True months mk by simp
    ultimately show ?thesis by blast
  next
    case False
    then have "monthWindows s k = Inr []" by (simp add: monthWindows_few)
    then have "collectWindows s (k # ks) = Inr rest" using rest by simp
    moreover have "map month rest = filter (\<lambda>k. 14 \<le> length (monthTempsOf s k)) (k # ks)"
      using False months by simp
    ultimately show ?thesis using sel by blast
  qed
qed







lemma length_month_group:
  "length (monthTempsOf (sortByDate e temps) k) = length (filter (\<lambda>t. monthKey t = k) temps)"
proof -
  have "mset (monthTempsOf (sortByDate e temps) k) = mset (filter (\<lambda>t. monthKey t = k) temps)"
    by (simp add: monthTempsOf_def mset_sortByDate)
  then show ?thesis by (metis size_mset)
qed

lemma detectWindows_spec:
  "\<exists>ws. detectWindows e temps = Inr ws \<and>
      map month ws =
        filter (\<lambda>k. 14 \<le> length (filter (\<lambda>t. monthKey t = k) temps))
          (monthKeys (sortByDate e temps)) \<and>
      (\<forall>w\<in>set ws. \<exists>i. chosen (monthTempsOf (sortByDate e temps) (month w)) w i)"
  using collectWindows_spec [of "sortByDate e temps" "monthKeys (sortByDate e temps)"]
  by (simp add: detectWindows_def Let_def length_month_group)




lemma nextDay_chain:
  assumes "\<forall>k<Suc n. nextDay e (f k) (f (Suc k))"
  shows "\<exists>t. Date_parse e (f 0) = Some t \<and>
              Date_parse e (f (Suc n)) = Some (t + (int n + 1) * msPerDay)"
  using assms
proof (induction n)
  case 0
  then have "nextDay e (f 0) (f (Suc 0))" by simp
  then show ?case by (auto simp: nextDay_def split: option.splits)
next
  case (Suc n)
  then obtain t where t: "Date_parse e (f 0) = Some t"
    "Date_parse e (f (Suc n)) = Some (t + (int n + 1) * msPerDay)"
    by (meson less_Suc_eq)
  from Suc.prems have "nextDay e (f (Suc n)) (f (Suc (Suc n)))" by simp
  with t show ?case by (simp add: nextDay_def algebra_simps)
qed

subsection \<open>The example stores\<close>


lemma detect_gapStore: "detectWindows (isoEnv 0) gapStore = Inr [gapWindow]"
  by code_simp

lemma sort_warmStore: "sortByDate (isoEnv 0) warmStore = warmStore"
  by code_simp

lemma detect_warmStore: "detectWindows (isoEnv 0) warmStore = Inr [warmWindow]"
  by code_simp


lemma group_warmStore: "monthTempsOf warmStore (month warmWindow) = warmStore"
  by code_simp

lemma warmStore_days:
  "n < 15 \<Longrightarrow> nextDay (isoEnv 0) (date (warmStore ! n)) (date (warmStore ! Suc n))"
proof -
  have "list_all (\<lambda>n. nextDay (isoEnv 0) (date (warmStore ! n)) (date (warmStore ! Suc n))) [0..<15]"
    by code_simp
  then show "n < 15 \<Longrightarrow> nextDay (isoEnv 0) (date (warmStore ! n)) (date (warmStore ! Suc n))"
    by (simp add: list_all_iff)
qed


subsection \<open>The claims on the detector\<close>





text \<open>
  Claim C1, as the code has it. The window of a month starts at a reading of the
  month and ends at the reading six positions later in the month's sorted readings;
  when each of these seven readings is dated the day after the one before, the end
  date is the start date plus 6 days.
\<close>

theorem C1_window_spans_seven_readings:
  "\<exists>ws. detectWindows e temps = Inr ws \<and>
     (\<forall>w\<in>set ws. \<exists>i.
        i + 6 < length (monthTempsOf (sortByDate e temps) (month w)) \<and>
        startDate w = date (monthTempsOf (sortByDate e temps) (month w) ! i) \<and>
        endDate w = date (monthTempsOf (sortByDate e temps) (month w) ! (i + 6)) \<and>
        ((\<forall>k<6. nextDay e (date (monthTempsOf (sortByDate e temps) (month w) ! (i + k)))
                   (date (monthTempsOf (sortByDate e temps) (month w) ! (i + Suc k)))) \<longrightarrow>
           Date_parse e (endDate w) = plusDays e (startDate w) 6))"
proof -
  from detectWindows_spec [of e temps] obtain ws where
    d: "detectWindows e temps = Inr ws" and
    c: "\<forall>w\<in>set ws. \<exists>i. chosen (monthTempsOf (sortByDate e temps) (month w)) w i"
    by blast
  have "\<exists>i.
        i + 6 < length (monthTempsOf (sortByDate e temps) (month w)) \<and>
        startDate w = date (monthTempsOf (sortByDate e temps) (month w) ! i) \<and>
        endDate w = date (monthTempsOf (sortByDate e temps) (month w) ! (i + 6)) \<and>
        ((\<forall>k<6. nextDay e (date (monthTempsOf (sortByDate e temps) (month w) ! (i + k)))
                   (date (monthTempsOf (sortByDate e temps) (month w) ! (i + Suc k)))) \<longrightarrow>
           Date_parse e (endDate w) = plusDays e (startDate w) 6)"
    if "w \<in> set ws" for w
  proof -
    let ?g = "monthTempsOf (sortByDate e temps) (month w)"
    from c that obtain i where ch: "chosen ?g w i" by blast
    then have i: "i + 7 \<le> length ?g" by (simp add: chosen_def)
    have sd: "startDate w = date (?g ! i)"
      using ch weekAt_fields(1) [OF i] by (simp add: chosen_def)
    have ed: "endDate w = date (?g ! (i + 6))"
      using ch weekAt_fields(2) [OF i] by (simp add: chosen_def)
    have days: "Date_parse e (endDate w) = plusDays e (startDate w) 6"
      if "\<forall>k<6. nextDay e (date (?g ! (i + k))) (date (?g ! (i + Suc k)))"
    proof -
      from that have "\<forall>k<Suc 5. nextDay e (date (?g ! (i + k))) (date (?g ! (i + Suc k)))"
        by simp
      from nextDay_chain [of 5 e "\<lambda>k. date (?g ! (i + k))", OF this]
      obtain t where "Date_parse e (date (?g ! (i + 0))) = Some t"
        "Date_parse e (date (?g ! (i + Suc 5))) = Some (t + (int 5 + 1) * msPerDay)"
        by blast
      then show ?thesis by (simp add: sd ed plusDays_def)
    qed
    have lt: "i + 6 < length ?g" using i by simp
    show ?thesis
    proof (intro exI [of _ i] conjI impI)
      show "i + 6 < length ?g" by (fact lt)
      show "startDate w = date (?g ! i)" by (fact sd)
      show "endDate w = date (?g ! (i + 6))" by (fact ed)
      assume "\<forall>k<6. nextDay e (date (?g ! (i + k))) (date (?g ! (i + Suc k)))"
      then show "Date_parse e (endDate w) = plusDays e (startDate w) 6" by (rule days)
    qed
  qed
  with d show ?thesis by blast
qed

text \<open>
  The sixteen readings of \<open>warmStore\<close> are on consecutive days: its window ends 6
  days after it starts.
\<close>

theorem C1_window_spans_seven_readings_witness:
  "detectWindows (isoEnv 0) warmStore = Inr [warmWindow] \<and>
   Date_parse (isoEnv 0) (endDate warmWindow) = plusDays (isoEnv 0) (startDate warmWindow) 6"
proof -
  let ?g = "monthTempsOf (sortByDate (isoEnv 0) warmStore) (month warmWindow)"
  have g: "?g = warmStore" by (simp add: sort_warmStore group_warmStore)
  from C1_window_spans_seven_readings [of "isoEnv 0" warmStore] obtain ws where
    d: "detectWindows (isoEnv 0) warmStore = Inr ws" and
    a: "\<forall>w\<in>set ws. \<exists>i.
        i + 6 < length (monthTempsOf (sortByDate (isoEnv 0) warmStore) (month w)) \<and>
        startDate w = date (monthTempsOf (sortByDate (isoEnv 0) warmStore) (month w) ! i) \<and>
        endDate w = date (monthTempsOf (sortByDate (isoEnv 0) warmStore) (month w) ! (i + 6)) \<and>
        ((\<forall>k<6. nextDay (isoEnv 0)
                   (date (monthTempsOf (sortByDate (isoEnv 0) warmStore) (month w) ! (i + k)))
                   (date (monthTempsOf (sortByDate (isoEnv 0) warmStore) (month w) ! (i + Suc k)))) \<longrightarrow>
           Date_parse (isoEnv 0) (endDate w) = plusDays (isoEnv 0) (startDate w) 6)"
    by blast
  from d have ws: "ws = [warmWindow]" by (simp add: detect_warmStore)
  with a obtain i where
    i: "i + 6 < length ?g" and
    imp: "(\<forall>k<6. nextDay (isoEnv 0) (date (?g ! (i + k))) (date (?g ! (i + Suc k)))) \<longrightarrow>
           Date_parse (isoEnv 0) (endDate warmWindow) = plusDays (isoEnv 0) (startDate warmWindow) 6"
    by auto
  have len: "length warmStore = 16" by (simp add: warmStore_def)
  have "nextDay (isoEnv 0) (date (?g ! (i + k))) (date (?g ! (i + Suc k)))" if "k < 6" for k
  proof -
    from i that have "i + k < 15" by (simp add: g len)
    then show ?thesis using warmStore_days [of "i + k"] by (simp add: g)
  qed
  with imp have "Date_parse (isoEnv 0) (endDate warmWindow) = plusDays (isoEnv 0) (startDate warmWindow) 6"
    by blast
  then show ?thesis by (simp add: detect_warmStore)
qed

text \<open>
  Claim C1, as the spec has it, fails when the month has gaps: the readings of
  \<open>gapStore\<close> are two days apart, its window starts on 1 January and ends with the
  seventh reading, on 13 January, while the start plus 6 days is 7 January.
\<close>

theorem C1_gap_in_the_month:
  "detectWindows (isoEnv 0) gapStore = Inr [gapWindow] \<and>
   startDate gapWindow = ''2024-01-01'' \<and> endDate gapWindow = ''2024-01-13'' \<and>
   map_option isoDate (plusDays (isoEnv 0) (startDate gapWindow) 6) = Some ''2024-01-07''"
proof -
  have "map_option isoDate (plusDays (isoEnv 0) (startDate gapWindow) 6) = Some ''2024-01-07''"
    by code_simp
  then show ?thesis
    by (simp add: detect_gapStore gapWindow_def)
qed

subsection \<open>The CSV round trip\<close>

declare natToString.simps [simp del]

lemma split_str_nonempty: "split_str c s \<noteq> []"
  by (induction s) (auto split: list.splits)




lemma includes_char: "includes_str s [c] \<longleftrightarrow> c \<in> set s"
  by (induction s) auto
























section \<open>Further properties\<close>

subsection \<open>Direct entry\<close>

lemma findIndex_None: "findIndex p xs = None \<Longrightarrow> x \<in> set xs \<Longrightarrow> \<not> p x"
  by (induction xs) (auto split: if_splits)

lemma findIndex_first: "findIndex p xs = Some i \<Longrightarrow> j < i \<Longrightarrow> \<not> p (xs ! j)"
proof (induction xs arbitrary: i j)
  case Nil
  then show ?case by simp
next
  case (Cons x xs)
  then show ?case by (cases j) (auto split: if_splits)
qed

text \<open>
  Direct entry keeps the dates of the store distinct: if no two readings of the store
  have the same date before \<open>addTemperature\<close>, none have afterwards.
\<close>

theorem addTemperature_keeps_dates_distinct:
  assumes "distinct (map date (temperatures st))"
  shows "distinct (map date (temperatures (snd (addTemperature e st))))"
proof (cases "newTemp st = [] \<or> selectedDate st = [] \<or> validTemp (parseFloat (newTemp st)) = None")
  case True
  then have "snd (addTemperature e st) = st"
    by (auto simp: addTemperature_def)
  with assms show ?thesis by simp
next
  case False
  then obtain temp where temp: "validTemp (parseFloat (newTemp st)) = Some temp"
    and ne: "newTemp st \<noteq> []" "selectedDate st \<noteq> []"
    by auto
  let ?new = "\<lparr>date = selectedDate st, temperature = temp,
      cervixHeight = (if cervixHeightInput st = [] then None else Some (cervixHeightInput st)),
      ovulationStrip = ovulationStripInput st, dateObj = Date_parse e (selectedDate st)\<rparr>"
  show ?thesis
  proof (cases "findIndex (\<lambda>t. date t = selectedDate st) (temperatures st)")
    case None
    have "date x \<noteq> selectedDate st" if "x \<in> set (temperatures st)" for x
      using findIndex_None [OF None that] .
    then have "\<forall>x\<in>set (temperatures st). date x \<noteq> selectedDate st" by blast
    then have fresh: "selectedDate st \<notin> set (map date (temperatures st))"
      by (metis imageE list.set_map)
    have res: "temperatures (snd (addTemperature e st)) = sortByDate e (temperatures st @ [?new])"
      using None temp ne by (simp add: addTemperature_def Let_def)
    have "mset (map date (sortByDate e (temperatures st @ [?new]))) =
        mset (map date (temperatures st @ [?new]))"
      by (metis mset_map mset_sortByDate)
    then have "distinct (map date (sortByDate e (temperatures st @ [?new]))) \<longleftrightarrow>
        distinct (map date (temperatures st @ [?new]))"
      by (rule mset_eq_imp_distinct_iff)
    with assms fresh show ?thesis by (simp add: res)
  next
    case (Some i)
    then have i: "i < length (temperatures st)" and d: "date (temperatures st ! i) = selectedDate st"
      using findIndex_Some [of "\<lambda>t. date t = selectedDate st" "temperatures st" i] by simp_all
    have res: "temperatures (snd (addTemperature e st)) = (temperatures st)[i := ?new]"
      using Some temp ne by (simp add: addTemperature_def Let_def)
    have "map date ((temperatures st)[i := ?new]) = (map date (temperatures st))[i := selectedDate st]"
      by (simp add: map_update)
    also have "\<dots> = map date (temperatures st)"
      using i d by (metis length_map list_update_id nth_map)
    finally show ?thesis using assms by (simp add: res)
  qed
qed

theorem addTemperature_keeps_dates_distinct_witness:
  "distinct (map date (temperatures (snd (addTemperature (isoEnv 0) replaceForm))))"
proof -
  have "distinct (map date (temperatures replaceForm))"
    by (simp add: replaceForm_def oneReadingState_def)
  then show ?thesis by (rule addTemperature_keeps_dates_distinct)
qed

text \<open>
  An accepted entry for a date that is already stored replaces the first reading of
  that date, in place, by the new entry; the other readings stay as and where they are.
\<close>

theorem addTemperature_replaces_existing:
  assumes "newTemp st \<noteq> []" "selectedDate st \<noteq> []"
    and "validTemp (parseFloat (newTemp st)) = Some temp"
    and "selectedDate st \<in> date ` set (temperatures st)"
  shows "\<exists>i<length (temperatures st).
           date (temperatures st ! i) = selectedDate st \<and>
           (\<forall>j<i. date (temperatures st ! j) \<noteq> selectedDate st) \<and>
           temperatures (snd (addTemperature e st)) =
             (temperatures st)
               [i := \<lparr>date = selectedDate st, temperature = temp,
                      cervixHeight = (if cervixHeightInput st = [] then None
                                      else Some (cervixHeightInput st)),
                      ovulationStrip = ovulationStripInput st,
                      dateObj = Date_parse e (selectedDate st)\<rparr>]"
proof (cases "findIndex (\<lambda>t. date t = selectedDate st) (temperatures st)")
  case None
  have "date x \<noteq> selectedDate st" if "x \<in> set (temperatures st)" for x
    using findIndex_None [OF None that] .
  then have "\<forall>x\<in>set (temperatures st). date x \<noteq> selectedDate st" by blast
  with assms(4) have False by (metis imageE)
  then show ?thesis ..
next
  case (Some i)
  then have i: "i < length (temperatures st)" and d: "date (temperatures st ! i) = selectedDate st"
    using findIndex_Some [of "\<lambda>t. date t = selectedDate st" "temperatures st" i] by simp_all
  have first: "\<forall>j<i. date (temperatures st ! j) \<noteq> selectedDate st"
    using findIndex_first [OF Some] by blast
  have "temperatures (snd (addTemperature e st)) =
             (temperatures st)
               [i := \<lparr>date = selectedDate st, temperature = temp,
                      cervixHeight = (if cervixHeightInput st = [] then None
                                      else Some (cervixHeightInput st)),
                      ovulationStrip = ovulationStripInput st,
                      dateObj = Date_parse e (selectedDate st)\<rparr>]"
    using Some assms by (simp add: addTemperature_def Let_def)
  with i d first show ?thesis by blast
qed

lemma replaceForm_valid: "validTemp (parseFloat (newTemp replaceForm)) = Some (991 / 10)"
  by code_simp

theorem addTemperature_replaces_existing_witness:
  "map temperature (temperatures (snd (addTemperature (isoEnv 0) replaceForm))) = [991 / 10] \<and>
   map temperature (temperatures replaceForm) = [98]"
proof -
  have s: "temperatures replaceForm = [mkReading ''2024-02-01'' 98]"
    by (simp add: replaceForm_def oneReadingState_def)
  have d: "date (mkReading ''2024-02-01'' 98) = ''2024-02-01''"
    by (simp add: mkReading_def)
  have f: "newTemp replaceForm \<noteq> []" "selectedDate replaceForm \<noteq> []"
    "selectedDate replaceForm \<in> date ` set (temperatures replaceForm)"
    by (simp_all add: s d) (simp_all add: replaceForm_def)
  from addTemperature_replaces_existing [OF f(1) f(2) replaceForm_valid f(3), of "isoEnv 0"]
  obtain i where "i < length (temperatures replaceForm)" and
    "map temperature (temperatures (snd (addTemperature (isoEnv 0) replaceForm))) =
       map temperature ((temperatures replaceForm) [i := \<lparr>date = selectedDate replaceForm, temperature = 991 / 10,
                      cervixHeight = (if cervixHeightInput replaceForm = [] then None
                                      else Some (cervixHeightInput replaceForm)),
                      ovulationStrip = ovulationStripInput replaceForm,
                      dateObj = Date_parse (isoEnv 0) (selectedDate replaceForm)\<rparr>])"
    by auto
  then show ?thesis by (simp add: s mkReading_def)
qed

subsection \<open>The predictor\<close>

lemma calculateCycleLength_range:
  "calculateCycleLength e w = Some c \<Longrightarrow> 21 \<le> c \<and> c \<le> 35"
  by (auto simp: calculateCycleLength_def split: option.splits)

lemma Math_round_mean:
  assumes "21 \<le> a" "a \<le> 35" "21 \<le> b" "b \<le> (35::int)"
  shows "21 \<le> Math_round ((of_int a + of_int b) / 2) \<and> Math_round ((of_int a + of_int b) / 2) \<le> 35"
proof -
  let ?q = "(of_int a + of_int b) / (2::rat) + 1 / 2"
  have "(21::rat) \<le> ?q"
  proof -
    have "(42::rat) \<le> of_int a + of_int b"
      using assms by (metis add_mono of_int_le_iff of_int_numeral numeral_Bit0 of_int_add) 
    then show ?thesis by (simp add: field_simps)
  qed
  then have lo: "21 \<le> \<lfloor>?q\<rfloor>" by (simp add: le_floor_iff)
  have "?q < 36"
  proof -
    have "of_int a + of_int b \<le> (70::rat)"
      using assms by (metis add_mono of_int_le_iff of_int_numeral numeral_Bit0 of_int_add)
    then show ?thesis by (simp add: field_simps)
  qed
  then have "\<lfloor>?q\<rfloor> < 36" by (simp add: floor_less_iff)
  with lo show ?thesis by (simp add: Math_round_def)
qed

text \<open>
  The cycle length of every prediction is an integer between 21 and 35, whatever the
  windows, the date parser and the time zone are.
\<close>

theorem prediction_cycleLength_range:
  assumes "predictNextFertileWindow e windows = Inr (Some p)"
  shows "21 \<le> cycleLength p \<and> cycleLength p \<le> 35"
proof -
  let ?lastTwo = "drop (length windows - 2) windows"
  from assms obtain a b where
    a: "calculateCycleLength e (?lastTwo ! 0) = Some a" and
    b: "calculateCycleLength e (?lastTwo ! 1) = Some b" and
    p: "cycleLength p = Math_round ((of_int a + of_int b) / 2)"
    unfolding predictNextFertileWindow_def Let_def average2_def
    by (auto split: if_splits option.splits)
  from calculateCycleLength_range [OF a] calculateCycleLength_range [OF b]
  show ?thesis unfolding p by (intro Math_round_mean) simp_all
qed

theorem prediction_cycleLength_range_witness:
  "21 \<le> cycleLength \<lparr>nextStart = ''2024-03-03'', nextEnd = ''2024-03-09'', cycleLength = 24\<rparr> \<and>
   cycleLength \<lparr>nextStart = ''2024-03-03'', nextEnd = ''2024-03-09'', cycleLength = 24\<rparr> \<le> 35"
  using prediction_cycleLength_range [OF predict_jan_feb] .

text \<open>With fewer than two windows no prediction is made.\<close>

theorem no_prediction_below_two_windows:
  "length windows < 2 \<Longrightarrow> predictNextFertileWindow e windows = Inr None"
  by (simp add: predictNextFertileWindow_def)

theorem no_prediction_below_two_windows_witness:
  "predictNextFertileWindow (isoEnv 0) [janWindow] = Inr None"
  using no_prediction_below_two_windows [of "[janWindow]" "isoEnv 0"] by simp

subsection \<open>Import\<close>

text \<open>
  An import either reports how many readings it inserted, at least one, and the store
  grows by that many while the rest of the state stays; or it shows one of the three
  other alerts (missing columns, no valid data, read error) and leaves the state as it
  was.
\<close>

theorem importCSV_alert_leaves_state:
  "(\<exists>n. importCSV e csvText st =
      (Some (Imported n), st\<lparr>temperatures := temperatures (snd (importCSV e csvText st))\<rparr>) \<and>
      0 < n \<and> length (temperatures (snd (importCSV e csvText st))) = length (temperatures st) + n) \<or>
   (fst (importCSV e csvText st) \<in> {Some MissingColumns, Some NoValidData, Some ReadError} \<and>
    snd (importCSV e csvText st) = st)"
  unfolding importCSV_def Let_def
  by (auto split: option.splits sum.splits simp: length_sortByDate)

text \<open>
  Of the three rows of \<open>scenarioCsv\<close> only the first is inserted: the second has
  no valid date and the third is out of range.
\<close>

theorem import_scenario_one_reading:
  "fst (importCSV (isoEnv 0) scenarioCsv (initialState (isoEnv 0))) = Some (Imported 1) \<and>
   map date (temperatures (snd (importCSV (isoEnv 0) scenarioCsv (initialState (isoEnv 0))))) =
     [''2024-02-01'']"
  by code_simp

subsection \<open>The analysis after a change of the store\<close>

lemma detect_few_readings:
  assumes "length temps < 14"
  shows "detectWindows e temps = Inr []"
proof -
  from detectWindows_spec [of e temps] obtain ws where
    d: "detectWindows e temps = Inr ws" and
    m: "map month ws =
        filter (\<lambda>k. 14 \<le> length (filter (\<lambda>t. monthKey t = k) temps))
          (monthKeys (sortByDate e temps))"
    by blast
  have "length (filter (\<lambda>t. monthKey t = k) temps) < 14" for k
    using length_filter_le [of "\<lambda>t. monthKey t = k" temps] assms by (rule le_less_trans)
  then have "filter (\<lambda>k. 14 \<le> length (filter (\<lambda>t. monthKey t = k) temps))
          (monthKeys (sortByDate e temps)) = []"
    by (simp add: filter_empty_conv not_le)
  with m have "ws = []" by simp
  with d show ?thesis by simp
qed

text \<open>
  When \<open>analyzeFertileWindows\<close> returns, the store is as before; with 14 readings or
  more the windows of the state are those the detector finds in the store, and with
  fewer the state is untouched and the detector would find no window.
\<close>

theorem analyzeFertileWindows_sets_detected_windows:
  assumes "analyzeFertileWindows e st = Inr st'"
  shows "temperatures st' = temperatures st \<and>
         (if length (temperatures st) < 14
          then st' = st \<and> detectWindows e (temperatures st) = Inr []
          else detectWindows e (temperatures st) = Inr (fertileWindows st'))"
proof (cases "length (temperatures st) < 14")
  case True
  then show ?thesis
    using assms detect_few_readings [of "temperatures st" e]
    by (simp add: analyzeFertileWindows_def)
next
  case False
  then show ?thesis
    using assms
    by (auto simp: analyzeFertileWindows_def split: sum.splits if_splits option.splits)
qed

theorem analyzeFertileWindows_witness:
  "analyzeFertileWindows (isoEnv 0) oneReadingState = Inr oneReadingState \<and>
   detectWindows (isoEnv 0) (temperatures oneReadingState) = Inr []"
proof -
  have a: "analyzeFertileWindows (isoEnv 0) oneReadingState = Inr oneReadingState"
    by (simp add: analyzeFertileWindows_def oneReadingState_def)
  from analyzeFertileWindows_sets_detected_windows [OF a] a show ?thesis
    by (simp add: oneReadingState_def)
qed

end
